theory Spec2Isabelle
  imports Complex_Main "HOL-Library.Word"
begin

section \<open>Lyricface: the mosaic renderer of the \<open>Home\<close> component\<close>

text \<open>
  The development embeds \<open>renderToCanvas\<close>, \<open>textCharacters\<close> and the \<open>clamp\<close>
  helper of the page component. JavaScript numbers are read as real numbers; \<open>NaN\<close>
  and the infinities are not represented. The products and quotients that give the
  surface its dimensions are rounded to binary64, because a floor is taken of them;
  the steps, the grid coordinates and the styling of a cell are computed exactly.
  Strings are sequences of UTF-16 code units, which is what \<open>split("")\<close> and indexing
  count. The canvas is represented by its two dimensions and by the list of calls made
  on its 2D context.
\<close>

subsection \<open>Text: the glyph stream\<close>

type_synonym code_unit = "16 word"
type_synonym js_string = "code_unit list"

text \<open>The characters matched by \<open>\s\<close> and removed by \<open>trim()\<close>: ECMAScript's
  white space and line terminators.\<close>

definition is_white :: "code_unit \<Rightarrow> bool" where
  "is_white c =
     (c \<in> {0x09, 0x0A, 0x0B, 0x0C, 0x0D, 0x20, 0xA0, 0x1680, 0x2028, 0x2029,
            0x202F, 0x205F, 0x3000, 0xFEFF}
      \<or> (0x2000 \<le> c \<and> c \<le> 0x200A))"

text \<open>\<open>lyrics.replace(/\s+/g, " ")\<close>: every maximal run of white space becomes one space.\<close>

function collapse_ws :: "js_string \<Rightarrow> js_string" where
  "collapse_ws [] = []"
| "collapse_ws (c # cs) =
     (if is_white c then 0x20 # collapse_ws (dropWhile is_white cs)
      else c # collapse_ws cs)"
  by pat_completeness auto
termination
  by (relation "measure length") (auto simp: le_imp_less_Suc length_dropWhile_le)

text \<open>\<open>String.prototype.trim\<close>.\<close>

definition trim :: "js_string \<Rightarrow> js_string" where
  "trim s = rev (dropWhile is_white (rev (dropWhile is_white s)))"

text \<open>The placeholder glyph, U+2022.\<close>

definition bullet :: code_unit where
  "bullet = 0x2022"

definition textCharacters :: "js_string \<Rightarrow> js_string" where
  "textCharacters lyrics =
     (let sanitized = trim (collapse_ws lyrics)
      in if length sanitized > 0 then sanitized else [bullet])"

text \<open>\<open>textCharacters[charIndex % textCharacters.length]\<close>: on an empty array the
  index is \<open>NaN\<close> and the read is \<open>undefined\<close>, here \<open>None\<close>.\<close>

definition nextChar_at :: "js_string \<Rightarrow> nat \<Rightarrow> code_unit option" where
  "nextChar_at chars charIndex =
     (if length chars = 0 then None else Some (chars ! (charIndex mod length chars)))"

text \<open>\<open>nextChar === "\n" ? " " : nextChar\<close>.\<close>

definition safeChar_of :: "code_unit option \<Rightarrow> code_unit option" where
  "safeChar_of nextChar = (if nextChar = Some 0x0A then Some 0x20 else nextChar)"

subsection \<open>Numbers\<close>

text \<open>Rounding a real number to the nearest binary64 value, ties to even: 53
  significant bits, exponents from \<open>-1022\<close> upwards (subnormal numbers share the last
  spacing). Overflow to infinity is not represented.\<close>

definition round_half_even :: "real \<Rightarrow> int" where
  "round_half_even x =
     (let f = \<lfloor>x\<rfloor>; d = x - of_int f
      in if d < 1 / 2 then f else if 1 / 2 < d then f + 1
         else if even f then f else f + 1)"

definition binade :: "real \<Rightarrow> int" where
  "binade x = max (- 1022) \<lfloor>log 2 \<bar>x\<bar>\<rfloor>"

definition ulp :: "real \<Rightarrow> real" where
  "ulp x = 2 powr (of_int (binade x) - 52)"

definition to_double :: "real \<Rightarrow> real" where
  "to_double x = (if x = 0 then 0 else ulp x * of_int (round_half_even (x / ulp x)))"

text \<open>\<open>a * b\<close> and \<open>a / b\<close> on numbers. A zero divisor does not occur where the
  quotient is used: the guard of \<open>renderToCanvas\<close> excludes it.\<close>

definition js_mul :: "real \<Rightarrow> real \<Rightarrow> real" where
  "js_mul a b = to_double (a * b)"

definition js_div :: "real \<Rightarrow> real \<Rightarrow> real" where
  "js_div a b = to_double (a / b)"

text \<open>Storing a number in an \<open>unsigned long\<close> attribute of the DOM: the integer part
  modulo \<open>2^32\<close>. A reflected dimension above \<open>2^31 - 1\<close> is replaced by the
  attribute's default.\<close>

definition to_unsigned_long :: "real \<Rightarrow> nat" where
  "to_unsigned_long v = nat ((if v < 0 then - \<lfloor>- v\<rfloor> else \<lfloor>v\<rfloor>) mod 2 ^ 32)"

definition reflect_dimension :: "nat \<Rightarrow> real \<Rightarrow> nat" where
  "reflect_dimension dflt v =
     (let n = to_unsigned_long v in if n > 2147483647 then dflt else n)"

subsection \<open>Settings, image, canvas\<close>

record CanvasSettings =
  fontSize :: real
  spacing :: real
  contrast :: real
  monochrome :: bool
  underlay :: real

text \<open>A loaded image. \<open>drawn img w h\<close> is the RGBA8 buffer that the browser returns
  from \<open>getImageData(0, 0, w, h)\<close> after \<open>drawImage(img, 0, 0, w, h)\<close> on the
  temporary canvas; how the browser scales the picture is not part of the program.\<close>

record HTMLImageElement =
  naturalWidth :: nat
  naturalHeight :: nat
  drawn :: "real \<Rightarrow> real \<Rightarrow> 8 word list"

datatype fill_style =
    Hex string
  | Rgba int int int real

text \<open>The calls made on a 2D context. \<open>SetFont weight size\<close> stands for the font
  string \<open>`${weight} ${size}px "Urbanist", sans-serif`\<close>.\<close>

datatype draw_op =
    ClearRect real real real real
  | SetFillStyle fill_style
  | FillRect real real real real
  | Save
  | SetGlobalAlpha real
  | DrawImage HTMLImageElement real real real real
  | Restore
  | SetTextBaseline string
  | SetFont int real
  | FillText "code_unit option" real real

text \<open>A canvas element: its \<open>width\<close> and \<open>height\<close>, which the DOM holds as
  \<open>unsigned long\<close> (defaults 300 and 150), whether \<open>getContext("2d")\<close> gives a
  context, and the calls made on that context so far, oldest first.\<close>

record HTMLCanvasElement =
  canvas_width :: nat
  canvas_height :: nat
  context2d :: bool
  calls :: "draw_op list"

text \<open>What the \<open>renderToCanvas\<close> callback closes over: the image ref, the
  \<open>imageSize\<close>, \<open>previewWidth\<close>, \<open>settings\<close> and \<open>lyrics\<close> states, and whether the
  temporary canvas created by the document gives a 2D context. The states the callback
  does not read (\<open>imageSrc\<close>, \<open>isDragging\<close>, \<open>processed\<close>) are left out.
  \<open>previewWidth\<close> only ever holds its initial value 720 or a value stored by
  \<open>resize\<close> below, so it is an integer.\<close>

record render_env =
  imageRef :: "HTMLImageElement option"
  imageSize_width :: nat
  imageSize_height :: nat
  previewWidth :: int
  settings :: CanvasSettings
  lyrics :: js_string
  temp_context2d :: bool

text \<open>The \<open>resize\<close> handler on a mounted container: \<open>clientWidth\<close> is an integer
  attribute of the DOM.\<close>

definition resize :: "render_env \<Rightarrow> int \<Rightarrow> render_env" where
  "resize env clientWidth =
     (let width = min clientWidth 820
      in env\<lparr>previewWidth := max width 280\<rparr>)"

text \<open>The \<open>onload\<close> handler of \<open>handleFile\<close>.\<close>

definition onload :: "render_env \<Rightarrow> HTMLImageElement \<Rightarrow> render_env" where
  "onload env img =
     env\<lparr>imageRef := Some img,
         imageSize_width := naturalWidth img,
         imageSize_height := naturalHeight img\<rparr>"

subsection \<open>The loop body: sampling and styling one cell\<close>

definition clamp :: "real \<Rightarrow> real \<Rightarrow> real \<Rightarrow> real" where
  "clamp v lo hi = min (max v lo) hi"

text \<open>Reading a \<open>Uint8ClampedArray\<close> at a number: \<open>undefined\<close> unless the number is
  an integer index inside the array.\<close>

definition array_get :: "8 word list \<Rightarrow> real \<Rightarrow> 8 word option" where
  "array_get a i =
     (if 0 \<le> i \<and> of_int \<lfloor>i\<rfloor> = i \<and> nat \<lfloor>i\<rfloor> < length a
      then Some (a ! nat \<lfloor>i\<rfloor>) else None)"

text \<open>\<open>v ?? 0\<close>.\<close>

definition nullish_zero :: "8 word option \<Rightarrow> real" where
  "nullish_zero v = (case v of None \<Rightarrow> 0 | Some b \<Rightarrow> real (unat b))"

definition sampleX_of :: "real \<Rightarrow> real \<Rightarrow> real" where
  "sampleX_of baseWidth x = min (baseWidth - 1) (max 0 (of_int \<lfloor>x\<rfloor>))"

definition sampleY_of :: "real \<Rightarrow> real \<Rightarrow> real" where
  "sampleY_of baseHeight y = min (baseHeight - 1) (max 0 (of_int \<lfloor>y\<rfloor>))"

definition pixelIndex_of :: "real \<Rightarrow> real \<Rightarrow> real \<Rightarrow> real" where
  "pixelIndex_of baseWidth sampleX sampleY = (sampleY * baseWidth + sampleX) * 4"

definition altIndex_of :: "real \<Rightarrow> real \<Rightarrow> real \<Rightarrow> real \<Rightarrow> real" where
  "altIndex_of baseWidth baseHeight sampleX sampleY =
     (min (baseHeight - 1) (sampleY + 1) * baseWidth + min (baseWidth - 1) (sampleX + 1)) * 4"

text \<open>One colour channel of the two-tap sample at \<open>(x, y)\<close>: \<open>k\<close> is 0, 1 or 2
  for red, green, blue.\<close>

definition sampled :: "8 word list \<Rightarrow> real \<Rightarrow> real \<Rightarrow> real \<Rightarrow> real \<Rightarrow> real \<Rightarrow> real" where
  "sampled imageData baseWidth baseHeight x y k =
     (let sampleX = sampleX_of baseWidth x;
          sampleY = sampleY_of baseHeight y;
          pixelIndex = pixelIndex_of baseWidth sampleX sampleY;
          altIndex = altIndex_of baseWidth baseHeight sampleX sampleY
      in (nullish_zero (array_get imageData (pixelIndex + k))
            + nullish_zero (array_get imageData (altIndex + k))) / 2)"

definition luminance_of :: "real \<Rightarrow> real \<Rightarrow> real \<Rightarrow> real" where
  "luminance_of r g b = 0.2126 * r + 0.7152 * g + 0.0722 * b"

definition contrasted_of :: "CanvasSettings \<Rightarrow> real \<Rightarrow> real" where
  "contrasted_of s luminance = clamp ((luminance - 128) * contrast s + 128) 0 255"

definition intensity_of :: "real \<Rightarrow> real" where
  "intensity_of contrasted = (1 - contrasted / 255) powr 0.65"

definition weight_of :: "real \<Rightarrow> int" where
  "weight_of intensity = round (300 + intensity * 600)"

definition size_of :: "real \<Rightarrow> real \<Rightarrow> real" where
  "size_of scaledFont intensity = scaledFont * (0.85 + intensity * 0.8)"

definition alpha_of :: "real \<Rightarrow> real" where
  "alpha_of intensity = 0.45 + intensity * 0.55"

definition fillStyle_of :: "CanvasSettings \<Rightarrow> real \<Rightarrow> real \<Rightarrow> real \<Rightarrow> real \<Rightarrow> fill_style" where
  "fillStyle_of s r g b alpha =
     (if monochrome s then Rgba 26 26 26 alpha
      else Rgba (round r) (round g) (round b) alpha)"

text \<open>The constants of one iteration of the inner loop.\<close>

record mosaic_cell =
  cell_x :: real
  cell_y :: real
  cell_r :: real
  cell_g :: real
  cell_b :: real
  cell_luminance :: real
  cell_contrasted :: real
  cell_intensity :: real
  cell_weight :: int
  cell_size :: real
  cell_alpha :: real
  cell_fillStyle :: fill_style
  cell_safeChar :: "code_unit option"

text \<open>What the two loops read: values that are fixed before the traversal starts.\<close>

record traversal =
  t_settings :: CanvasSettings
  t_chars :: js_string
  t_imageData :: "8 word list"
  t_baseWidth :: real
  t_baseHeight :: real
  t_scaledFont :: real
  t_stepX :: real
  t_stepY :: real

definition cell_at :: "traversal \<Rightarrow> real \<Rightarrow> real \<Rightarrow> nat \<Rightarrow> mosaic_cell" where
  "cell_at t x y charIndex =
     (let r = sampled (t_imageData t) (t_baseWidth t) (t_baseHeight t) x y 0;
          g = sampled (t_imageData t) (t_baseWidth t) (t_baseHeight t) x y 1;
          b = sampled (t_imageData t) (t_baseWidth t) (t_baseHeight t) x y 2;
          luminance = luminance_of r g b;
          contrasted = contrasted_of (t_settings t) luminance;
          intensity = intensity_of contrasted;
          weight = weight_of intensity;
          size = size_of (t_scaledFont t) intensity;
          alpha = alpha_of intensity;
          nextChar = nextChar_at (t_chars t) charIndex;
          safeChar = safeChar_of nextChar
      in \<lparr>cell_x = x, cell_y = y, cell_r = r, cell_g = g, cell_b = b,
          cell_luminance = luminance, cell_contrasted = contrasted,
          cell_intensity = intensity, cell_weight = weight, cell_size = size,
          cell_alpha = alpha,
          cell_fillStyle = fillStyle_of (t_settings t) r g b alpha,
          cell_safeChar = safeChar\<rparr>)"

text \<open>The three context calls of one iteration.\<close>

definition glyph_ops :: "mosaic_cell \<Rightarrow> draw_op list" where
  "glyph_ops c =
     [SetFont (cell_weight c) (cell_size c),
      SetFillStyle (cell_fillStyle c),
      FillText (cell_safeChar c) (cell_x c) (cell_y c)]"

subsection \<open>The traversal\<close>

text \<open>The inner loop \<open>for (let x = 0; x < baseWidth; x += stepX)\<close> from a given
  \<open>x\<close>, and the outer loop over \<open>y\<close>. Neither returns when its step is not positive
  and its bound is not reached: the value is then \<open>None\<close>.\<close>

partial_function (option) row_loop ::
  "traversal \<Rightarrow> real \<Rightarrow> real \<Rightarrow> nat \<Rightarrow> mosaic_cell list \<Rightarrow> (nat \<times> mosaic_cell list) option" where
  "row_loop t y x charIndex acc =
     (if x < t_baseWidth t
      then row_loop t y (x + t_stepX t) (charIndex + 1) (acc @ [cell_at t x y charIndex])
      else Some (charIndex, acc))"

partial_function (option) col_loop ::
  "traversal \<Rightarrow> real \<Rightarrow> nat \<Rightarrow> mosaic_cell list \<Rightarrow> mosaic_cell list option" where
  "col_loop t y charIndex acc =
     (if y < t_baseHeight t
      then (case row_loop t y 0 charIndex acc of
              None \<Rightarrow> None
            | Some (charIndex', acc') \<Rightarrow> col_loop t (y + t_stepY t) charIndex' acc')
      else Some acc)"

subsection \<open>\<open>renderToCanvas\<close>\<close>

definition aspect_of :: "render_env \<Rightarrow> real" where
  "aspect_of env = js_div (real (imageSize_width env)) (real (imageSize_height env))"

definition baseWidth_of :: "render_env \<Rightarrow> real \<Rightarrow> real" where
  "baseWidth_of env scale = of_int \<lfloor>js_mul (of_int (previewWidth env)) scale\<rfloor>"

definition baseHeight_of :: "render_env \<Rightarrow> real \<Rightarrow> real" where
  "baseHeight_of env scale =
     js_mul (of_int \<lfloor>js_div (of_int (previewWidth env)) (aspect_of env)\<rfloor>) scale"

definition detailFactor_of :: "real \<Rightarrow> real" where
  "detailFactor_of detailBoost = max 0.5 (min detailBoost 1)"

definition traversal_of :: "render_env \<Rightarrow> HTMLImageElement \<Rightarrow> real \<Rightarrow> real \<Rightarrow> traversal" where
  "traversal_of env imageElement scale detailBoost =
     (let baseWidth = baseWidth_of env scale;
          baseHeight = baseHeight_of env scale;
          scaledFont = fontSize (settings env) * scale;
          detailFactor = detailFactor_of detailBoost
      in \<lparr>t_settings = settings env,
          t_chars = textCharacters (lyrics env),
          t_imageData = drawn imageElement baseWidth baseHeight,
          t_baseWidth = baseWidth,
          t_baseHeight = baseHeight,
          t_scaledFont = scaledFont,
          t_stepX = scaledFont * spacing (settings env) * detailFactor,
          t_stepY = scaledFont * spacing (settings env) * 1.4 * detailFactor\<rparr>)"

text \<open>The calls between \<open>getImageData\<close> and the loops.\<close>

definition background_ops :: "CanvasSettings \<Rightarrow> HTMLImageElement \<Rightarrow> real \<Rightarrow> real \<Rightarrow> draw_op list" where
  "background_ops s imageElement baseWidth baseHeight =
     [ClearRect 0 0 baseWidth baseHeight,
      SetFillStyle (Hex ''#FAFAFA''),
      FillRect 0 0 baseWidth baseHeight,
      Save,
      SetGlobalAlpha (underlay s),
      DrawImage imageElement 0 0 baseWidth baseHeight,
      Restore,
      SetTextBaseline ''top'']"

text \<open>The cells of a render that has passed its guards.\<close>

definition mosaic_cells :: "render_env \<Rightarrow> HTMLImageElement \<Rightarrow> real \<Rightarrow> real \<Rightarrow> mosaic_cell list option" where
  "mosaic_cells env imageElement scale detailBoost =
     col_loop (traversal_of env imageElement scale detailBoost) 0 0 []"

text \<open>The result is \<open>None\<close> when the call does not return, and otherwise the canvas
  element as the call leaves it (\<open>None\<close> again for a null canvas).\<close>

definition renderToCanvas ::
  "render_env \<Rightarrow> HTMLCanvasElement option \<Rightarrow> real \<Rightarrow> real \<Rightarrow> HTMLCanvasElement option option" where
  "renderToCanvas env canvas scale detailBoost =
     (case canvas of
        None \<Rightarrow> Some canvas
      | Some cv \<Rightarrow>
          (case imageRef env of
             None \<Rightarrow> Some canvas
           | Some imageElement \<Rightarrow>
               if imageSize_width env = 0 \<or> imageSize_height env = 0 then Some canvas
               else
                 let baseWidth = baseWidth_of env scale;
                     baseHeight = baseHeight_of env scale;
                     cv1 = cv\<lparr>canvas_width := reflect_dimension 300 baseWidth,
                              canvas_height := reflect_dimension 150 baseHeight\<rparr>
                 in if \<not> context2d cv1 then Some (Some cv1)
                    else if \<not> temp_context2d env then Some (Some cv1)
                    else
                      (case mosaic_cells env imageElement scale detailBoost of
                         None \<Rightarrow> None
                       | Some cells \<Rightarrow>
                           Some (Some (cv1\<lparr>calls := calls cv1
                             @ background_ops (settings env) imageElement baseWidth baseHeight
                             @ concat (map glyph_ops cells)\<rparr>)))))"

subsection \<open>The grid in closed form\<close>

text \<open>With positive steps the loops visit the points \<open>(k * stepX, j * stepY)\<close> row by
  row, and the character index counts the cells visited before.\<close>

definition cols_of :: "traversal \<Rightarrow> nat" where
  "cols_of t = nat \<lceil>t_baseWidth t / t_stepX t\<rceil>"

definition rows_of :: "traversal \<Rightarrow> nat" where
  "rows_of t = nat \<lceil>t_baseHeight t / t_stepY t\<rceil>"

definition grid_row :: "traversal \<Rightarrow> nat \<Rightarrow> mosaic_cell list" where
  "grid_row t j =
     map (\<lambda>k. cell_at t (real k * t_stepX t) (real j * t_stepY t) (j * cols_of t + k))
       [0..<cols_of t]"

definition grid_cells :: "traversal \<Rightarrow> mosaic_cell list" where
  "grid_cells t = concat (map (grid_row t) [0..<rows_of t])"

subsection \<open>Toggling the monochrome setting\<close>

definition with_monochrome :: "render_env \<Rightarrow> bool \<Rightarrow> render_env" where
  "with_monochrome env m = env\<lparr>settings := (settings env)\<lparr>monochrome := m\<rparr>\<rparr>"

text \<open>A cell with its fill colour chosen again, the other constants kept.\<close>

definition recolour :: "bool \<Rightarrow> mosaic_cell \<Rightarrow> mosaic_cell" where
  "recolour m c = c\<lparr>cell_fillStyle :=
        (if m then Rgba 26 26 26 (cell_alpha c)
         else Rgba (round (cell_r c)) (round (cell_g c)) (round (cell_b c)) (cell_alpha c))\<rparr>"

subsection \<open>The pixel sampler as the specification words it\<close>

text \<open>Floor a coordinate and clamp it to \<open>[0, n - 1]\<close>.\<close>

definition floor_clamp :: "real \<Rightarrow> nat \<Rightarrow> nat" where
  "floor_clamp v n = nat (min (int n - 1) (max 0 \<lfloor>v\<rfloor>))"



subsection \<open>Initial state and example inputs\<close>

text \<open>The initial values of the component's states.\<close>

definition DEFAULT_LYRICS :: js_string where
  "DEFAULT_LYRICS = map of_char
     ''Every whispered line becomes a field of light. The chorus blooms, the silence fades, and the story stays.''"

definition default_settings :: CanvasSettings where
  "default_settings =
     \<lparr>fontSize = 18, spacing = 1.2, contrast = 1, monochrome = False, underlay = 0.08\<rparr>"

definition initial_env :: render_env where
  "initial_env =
     \<lparr>imageRef = None, imageSize_width = 0, imageSize_height = 0, previewWidth = 720,
      settings = default_settings, lyrics = DEFAULT_LYRICS, temp_context2d = True\<rparr>"

text \<open>A buffer of \<open>n\<close> opaque pixels of the gray (128, 128, 128), and a 100 x 100
  image that is this gray at whatever size it is drawn.\<close>

definition gray_buffer :: "nat \<Rightarrow> 8 word list" where
  "gray_buffer n = concat (replicate n [128, 128, 128, 255])"

definition gray_image :: HTMLImageElement where
  "gray_image =
     \<lparr>naturalWidth = 100, naturalHeight = 100,
      drawn = (\<lambda>w h. gray_buffer (nat \<lfloor>w\<rfloor> * nat \<lfloor>h\<rfloor>))\<rparr>"


text \<open>The state after the gray image has loaded, with the underlay switched off.\<close>

definition gray_env :: render_env where
  "gray_env = onload (initial_env\<lparr>settings := default_settings\<lparr>underlay := 0\<rparr>\<rparr>) gray_image"

text \<open>A canvas element as the document creates it.\<close>

definition blank_canvas :: HTMLCanvasElement where
  "blank_canvas = \<lparr>canvas_width = 300, canvas_height = 150, context2d = True, calls = []\<rparr>"

section \<open>The glyph stream\<close>

lemma textCharacters_nonempty: "textCharacters l \<noteq> []"
  by (simp add: textCharacters_def Let_def)

lemma is_white_space: "is_white 0x20"
  by (simp add: is_white_def)

lemma nextChar_at_textCharacters:
  "nextChar_at (textCharacters l) i = Some (textCharacters l ! (i mod length (textCharacters l)))"
  by (simp add: nextChar_at_def textCharacters_nonempty)

lemma list_all_dropWhile: "list_all P (dropWhile P xs) = list_all P xs"
  by (induction xs) auto

lemma trim_empty_iff: "trim s = [] \<longleftrightarrow> list_all is_white s"
proof -
  have "trim s = [] \<longleftrightarrow> list_all is_white (rev (dropWhile is_white s))"
    by (simp add: trim_def dropWhile_eq_Nil_conv list_all_iff)
  then show ?thesis by (simp add: list_all_dropWhile)
qed

lemma collapse_all_white: "list_all is_white (collapse_ws l) \<longleftrightarrow> list_all is_white l"
proof (induction l rule: collapse_ws.induct)
  case 1 show ?case by simp
next
  case (2 c cs)
  show ?case
  proof (cases "is_white c")
    case True
    with 2 show ?thesis by (simp add: is_white_space list_all_dropWhile)
  next
    case False with 2 show ?thesis by simp
  qed
qed

lemma sanitized_empty_iff: "trim (collapse_ws l) = [] \<longleftrightarrow> list_all is_white l"
  by (simp add: trim_empty_iff collapse_all_white)

section \<open>The traversal with positive steps\<close>

lemma upt_0_Suc_map: "[0..<Suc n] = 0 # map Suc [0..<n]"
  by (metis map_Suc_upt upt_conv_Cons zero_less_Suc)

lemma row_loop_closed:
  assumes step: "0 < t_stepX t"
  shows "n = nat \<lceil>(t_baseWidth t - x) / t_stepX t\<rceil> \<Longrightarrow>
     row_loop t y x ci acc =
       Some (ci + n, acc @ map (\<lambda>k. cell_at t (x + real k * t_stepX t) y (ci + k)) [0..<n])"
proof (induction n arbitrary: x ci acc)
  case 0
  then have "(t_baseWidth t - x) / t_stepX t \<le> 0" by simp
  with step have "\<not> x < t_baseWidth t" by (simp add: divide_le_0_iff)
  then show ?case by (subst row_loop.simps) simp
next
  case (Suc n)
  from Suc.prems have "0 < \<lceil>(t_baseWidth t - x) / t_stepX t\<rceil>" by linarith
  then have pos: "0 < (t_baseWidth t - x) / t_stepX t" by (simp add: less_ceiling_iff)
  with step have lt: "x < t_baseWidth t" by (simp add: zero_less_divide_iff)
  have "(t_baseWidth t - (x + t_stepX t)) / t_stepX t = (t_baseWidth t - x) / t_stepX t - 1"
    using step by (simp add: field_simps)
  then have "n = nat \<lceil>(t_baseWidth t - (x + t_stepX t)) / t_stepX t\<rceil>"
    using Suc.prems by simp
  from Suc.IH [OF this]
  have ih: "row_loop t y (x + t_stepX t) (ci + 1) (acc @ [cell_at t x y ci]) =
      Some (ci + 1 + n, (acc @ [cell_at t x y ci]) @
        map (\<lambda>k. cell_at t (x + t_stepX t + real k * t_stepX t) y (ci + 1 + k)) [0..<n])" .
  have shift: "map (\<lambda>k. cell_at t (x + real k * t_stepX t) y (ci + k)) [0..<Suc n] =
      cell_at t x y ci # map (\<lambda>k. cell_at t (x + t_stepX t + real k * t_stepX t) y (ci + 1 + k)) [0..<n]"
    unfolding upt_0_Suc_map by (simp add: comp_def algebra_simps)
  have "row_loop t y x ci acc = row_loop t y (x + t_stepX t) (ci + 1) (acc @ [cell_at t x y ci])"
    by (subst row_loop.simps) (simp add: lt)
  also note ih
  finally show ?case unfolding shift by simp
qed

lemma row_loop_from_0:
  assumes "0 < t_stepX t"
  shows "row_loop t y 0 ci acc =
     Some (ci + cols_of t,
           acc @ map (\<lambda>k. cell_at t (real k * t_stepX t) y (ci + k)) [0..<cols_of t])"
  using row_loop_closed [OF assms, of "cols_of t" 0 y ci acc] by (simp add: cols_of_def)

lemma col_loop_closed:
  assumes sx: "0 < t_stepX t" and sy: "0 < t_stepY t"
  shows "m = nat \<lceil>(t_baseHeight t - y) / t_stepY t\<rceil> \<Longrightarrow>
     col_loop t y ci acc =
       Some (acc @ concat (map (\<lambda>j. map (\<lambda>k. cell_at t (real k * t_stepX t)
                (y + real j * t_stepY t) (ci + j * cols_of t + k)) [0..<cols_of t]) [0..<m]))"
proof (induction m arbitrary: y ci acc)
  case 0
  then have "(t_baseHeight t - y) / t_stepY t \<le> 0" by simp
  with sy have "\<not> y < t_baseHeight t" by (simp add: divide_le_0_iff)
  then show ?case by (subst col_loop.simps) simp
next
  case (Suc m)
  let ?row = "\<lambda>y ci. map (\<lambda>k. cell_at t (real k * t_stepX t) y (ci + k)) [0..<cols_of t]"
  from Suc.prems have "0 < \<lceil>(t_baseHeight t - y) / t_stepY t\<rceil>" by linarith
  then have "0 < (t_baseHeight t - y) / t_stepY t" by (simp add: less_ceiling_iff)
  with sy have lt: "y < t_baseHeight t" by (simp add: zero_less_divide_iff)
  have "(t_baseHeight t - (y + t_stepY t)) / t_stepY t = (t_baseHeight t - y) / t_stepY t - 1"
    using sy by (simp add: field_simps)
  then have "m = nat \<lceil>(t_baseHeight t - (y + t_stepY t)) / t_stepY t\<rceil>"
    using Suc.prems by simp
  from Suc.IH [OF this]
  have ih: "col_loop t (y + t_stepY t) (ci + cols_of t) (acc @ ?row y ci) =
      Some ((acc @ ?row y ci) @ concat (map (\<lambda>j. map (\<lambda>k. cell_at t (real k * t_stepX t)
                (y + t_stepY t + real j * t_stepY t) (ci + cols_of t + j * cols_of t + k))
                [0..<cols_of t]) [0..<m]))" .
  have shift: "concat (map (\<lambda>j. map (\<lambda>k. cell_at t (real k * t_stepX t)
                (y + real j * t_stepY t) (ci + j * cols_of t + k)) [0..<cols_of t]) [0..<Suc m]) =
      ?row y ci @ concat (map (\<lambda>j. map (\<lambda>k. cell_at t (real k * t_stepX t)
                (y + t_stepY t + real j * t_stepY t) (ci + cols_of t + j * cols_of t + k))
                [0..<cols_of t]) [0..<m])"
    unfolding upt_0_Suc_map by (simp add: comp_def algebra_simps)
  have "col_loop t y ci acc = col_loop t (y + t_stepY t) (ci + cols_of t) (acc @ ?row y ci)"
    by (subst col_loop.simps) (simp add: lt row_loop_from_0 [OF sx])
  also note ih
  finally show ?case unfolding shift by simp
qed

lemma col_loop_grid:
  assumes "0 < t_stepX t" and "0 < t_stepY t"
  shows "col_loop t 0 0 [] = Some (grid_cells t)"
  using col_loop_closed [OF assms, of "rows_of t" 0 0 "[]"]
  by (simp add: rows_of_def grid_cells_def grid_row_def [abs_def])

lemma grid_cells_mem:
  assumes "0 < t_stepX t" and "0 < t_stepY t" and "c \<in> set (grid_cells t)"
  shows "\<exists>x y ci. c = cell_at t x y ci \<and> 0 \<le> x \<and> x < t_baseWidth t \<and> 0 \<le> y \<and> y < t_baseHeight t"
proof -
  from assms(3) obtain j k where j: "j < rows_of t" and k: "k < cols_of t"
    and c: "c = cell_at t (real k * t_stepX t) (real j * t_stepY t) (j * cols_of t + k)"
    by (auto simp: grid_cells_def grid_row_def)
  have "real k < t_baseWidth t / t_stepX t"
    using k unfolding cols_of_def by linarith
  then have x: "real k * t_stepX t < t_baseWidth t" using assms(1) by (simp add: field_simps)
  have "real j < t_baseHeight t / t_stepY t"
    using j unfolding rows_of_def by linarith
  then have y: "real j * t_stepY t < t_baseHeight t" using assms(2) by (simp add: field_simps)
  show ?thesis using c x y assms(1,2) by (intro exI [of _ "real k * t_stepX t"] exI [of _ "real j * t_stepY t"] exI [of _ "j * cols_of t + k"]) simp
qed

section \<open>The sampler on a whole-pixel surface\<close>

lemma max0_floor: "max 0 (of_int \<lfloor>x\<rfloor>) = real (nat \<lfloor>x\<rfloor>)"
  by (simp add: max_def)

lemma min_pred_real:
  assumes "1 \<le> w"
  shows "min (real w - 1) (real n) = real (min (w - 1) n)"
proof -
  have "real w - 1 = real (w - 1)" using assms by (simp add: of_nat_diff)
  then show ?thesis by (simp only: of_nat_min)
qed

lemma sampleX_nat:
  assumes "1 \<le> w"
  shows "sampleX_of (real w) x = real (min (w - 1) (nat \<lfloor>x\<rfloor>))"
  unfolding sampleX_of_def max0_floor by (rule min_pred_real [OF assms])

lemma sampleY_nat:
  assumes "1 \<le> h"
  shows "sampleY_of (real h) y = real (min (h - 1) (nat \<lfloor>y\<rfloor>))"
  unfolding sampleY_of_def max0_floor by (rule min_pred_real [OF assms])

lemma pixelIndex_nat:
  "pixelIndex_of (real w) (real sx) (real sy) = real (4 * (sy * w + sx))"
  by (simp add: pixelIndex_of_def)

lemma altIndex_nat:
  assumes "1 \<le> w" "1 \<le> h"
  shows "altIndex_of (real w) (real h) (real sx) (real sy) =
     real (4 * (min (h - 1) (sy + 1) * w + min (w - 1) (sx + 1)))"
proof -
  have a: "min (real h - 1) (real sy + 1) = real (min (h - 1) (sy + 1))"
    using min_pred_real [OF assms(2), of "sy + 1"] by simp
  have b: "min (real w - 1) (real sx + 1) = real (min (w - 1) (sx + 1))"
    using min_pred_real [OF assms(1), of "sx + 1"] by simp
  show ?thesis unfolding altIndex_of_def a b by simp
qed

lemma array_get_nat:
  "array_get a (real i) = (if i < length a then Some (a ! i) else None)"
  by (simp add: array_get_def)

lemma cell_index_bound:
  assumes "1 \<le> (w::nat)" "1 \<le> (h::nat)" "sx \<le> w - 1" "sy \<le> h - 1" "c \<le> (2::nat)"
  shows "4 * (sy * w + sx) + c < 4 * w * h"
proof -
  obtain w' h' where w: "w = Suc w'" and h: "h = Suc h'"
    using assms(1,2) by (metis One_nat_def Suc_le_D)
  have "sy \<le> h'" using assms(4) h by simp
  then have "sy * Suc w' \<le> h' * Suc w'" by (rule mult_le_mono1)
  moreover have "sx \<le> w'" using assms(3) w by simp
  ultimately have "sy * Suc w' + sx + 1 \<le> h' * Suc w' + Suc w'" by linarith
  also have "\<dots> = Suc w' * Suc h'" by (simp add: algebra_simps)
  finally have "sy * w + sx + 1 \<le> w * h" unfolding w h .
  then have "4 * (sy * w + sx + 1) \<le> 4 * (w * h)" by (rule mult_le_mono2)
  with assms(5) show ?thesis by (simp add: mult.assoc)
qed

lemma taps_in_range:
  fixes x y :: real
  assumes w: "1 \<le> w" and h: "1 \<le> h" and len: "length d = 4 * w * h" and c: "c \<le> 2"
    and sx_def: "sx = min (w - 1) (nat \<lfloor>x\<rfloor>)" and sy_def: "sy = min (h - 1) (nat \<lfloor>y\<rfloor>)"
  shows "array_get d (pixelIndex_of (real w) (sampleX_of (real w) x) (sampleY_of (real h) y) + real c)
           = Some (d ! (4 * (sy * w + sx) + c))"
    and "array_get d (altIndex_of (real w) (real h) (sampleX_of (real w) x) (sampleY_of (real h) y) + real c)
           = Some (d ! (4 * (min (h - 1) (sy + 1) * w + min (w - 1) (sx + 1)) + c))"
    and "4 * (sy * w + sx) + c < length d"
    and "4 * (min (h - 1) (sy + 1) * w + min (w - 1) (sx + 1)) + c < length d"
proof -
  have sxb: "sx \<le> w - 1" and syb: "sy \<le> h - 1" by (simp_all add: sx_def sy_def)
  show p: "4 * (sy * w + sx) + c < length d"
    unfolding len by (rule cell_index_bound [OF w h sxb syb c])
  show q: "4 * (min (h - 1) (sy + 1) * w + min (w - 1) (sx + 1)) + c < length d"
    unfolding len by (rule cell_index_bound [OF w h _ _ c]) simp_all
  have "pixelIndex_of (real w) (sampleX_of (real w) x) (sampleY_of (real h) y) + real c
      = real (4 * (sy * w + sx) + c)"
    unfolding sampleX_nat [OF w] sampleY_nat [OF h] pixelIndex_nat sx_def sy_def by simp
  then show "array_get d (pixelIndex_of (real w) (sampleX_of (real w) x) (sampleY_of (real h) y) + real c)
           = Some (d ! (4 * (sy * w + sx) + c))"
    using p by (simp only: array_get_nat if_True)
  have "altIndex_of (real w) (real h) (sampleX_of (real w) x) (sampleY_of (real h) y) + real c
      = real (4 * (min (h - 1) (sy + 1) * w + min (w - 1) (sx + 1)) + c)"
    unfolding sampleX_nat [OF w] sampleY_nat [OF h] altIndex_nat [OF w h] sx_def sy_def by simp
  then show "array_get d (altIndex_of (real w) (real h) (sampleX_of (real w) x) (sampleY_of (real h) y) + real c)
           = Some (d ! (4 * (min (h - 1) (sy + 1) * w + min (w - 1) (sx + 1)) + c))"
    using q by (simp only: array_get_nat if_True)
qed

section \<open>Styling bounds\<close>

lemma byte_le_255: "real (unat (b :: 8 word)) \<le> 255"
proof -
  have "unat b < 2 ^ 8" using unsigned_less [of b] by simp
  then have "unat b \<le> 255" by simp
  then have "real (unat b) \<le> real 255" by (simp only: of_nat_le_iff)
  then show ?thesis by (simp del: of_nat_unat)
qed

lemma nullish_zero_bounds: "0 \<le> nullish_zero v \<and> nullish_zero v \<le> 255"
proof (cases v)
  case None
  then show ?thesis by (simp add: nullish_zero_def)
next
  case (Some b)
  then have "nullish_zero v = real (unat b)" by (simp add: nullish_zero_def)
  with byte_le_255 [of b] show ?thesis by (simp del: of_nat_unat)
qed

lemma sampled_bounds:
  "0 \<le> sampled d w h x y k \<and> sampled d w h x y k \<le> 255"
proof -
  let ?p = "nullish_zero (array_get d (pixelIndex_of w (sampleX_of w x) (sampleY_of h y) + k))"
  let ?q = "nullish_zero (array_get d (altIndex_of w h (sampleX_of w x) (sampleY_of h y) + k))"
  have "0 \<le> ?p" "?p \<le> 255" "0 \<le> ?q" "?q \<le> 255"
    using nullish_zero_bounds by blast+
  then show ?thesis by (simp add: sampled_def Let_def)
qed

lemma contrasted_bounds: "0 \<le> contrasted_of s l \<and> contrasted_of s l \<le> 255"
  by (simp add: contrasted_of_def clamp_def)

lemma intensity_bounds:
  assumes "0 \<le> c" "c \<le> 255"
  shows "0 \<le> intensity_of c \<and> intensity_of c \<le> 1"
proof -
  have "0 \<le> 1 - c / 255" "1 - c / 255 \<le> 1" using assms by simp_all
  then show ?thesis unfolding intensity_of_def by (simp add: powr_le1)
qed

lemma weight_bounds:
  assumes "0 \<le> i" "i \<le> 1"
  shows "300 \<le> weight_of i \<and> weight_of i \<le> 900"
proof -
  have "(300::real) \<le> 300 + i * 600" "300 + i * 600 \<le> (900::real)" using assms by simp_all
  then have "round (300::real) \<le> round (300 + i * 600)" "round (300 + i * 600) \<le> round (900::real)"
    by (simp_all only: round_mono)
  then show ?thesis by (simp add: weight_of_def)
qed

lemma alpha_bounds:
  assumes "0 \<le> i" "i \<le> 1"
  shows "0.45 \<le> alpha_of i \<and> alpha_of i \<le> 1"
  using assms by (simp add: alpha_of_def)

lemma powr_13_20_pow:
  fixes x :: real
  assumes x: "0 < x"
  shows "(x powr (13 / 20)) ^ 20 = x ^ 13"
proof -
  have y: "0 < x powr (13 / 20)" using x by simp
  have "(x powr (13 / 20)) ^ 20 = (x powr (13 / 20)) powr (real 20)"
    using y by (simp only: powr_realpow)
  also have "\<dots> = x powr (13 / 20 * real 20)" by (simp only: powr_powr)
  also have "\<dots> = x powr (real 13)" by simp
  also have "\<dots> = x ^ 13" using x by (simp only: powr_realpow)
  finally show ?thesis .
qed

lemma intensity_gray: "0.6356 < intensity_of 128 \<and> intensity_of 128 < 0.6357"
proof -
  let ?v = "(127 / 255 :: real) powr (13 / 20)"
  have v: "intensity_of 128 = ?v" by (simp add: intensity_of_def)
  have p: "?v ^ 20 = (127 / 255) ^ 13" by (rule powr_13_20_pow) simp
  have "((1589 / 2500)::real) ^ 20 < (127 / 255) ^ 13"
    by (simp add: power_divide divide_simps)
  then have "((1589 / 2500)::real) ^ 20 < ?v ^ 20" by (simp only: p)
  then have lo: "1589 / 2500 < ?v" by (rule power_less_imp_less_base) simp
  have "((127 / 255)::real) ^ 13 < (6357 / 10000) ^ 20"
    by (simp add: power_divide divide_simps)
  then have "?v ^ 20 < (6357 / 10000) ^ 20" by (simp only: p)
  then have hi: "?v < 6357 / 10000" by (rule power_less_imp_less_base) simp
  show ?thesis unfolding v using lo hi by simp
qed

lemma weight_gray: "weight_of (intensity_of 128) = 681"
proof -
  have "680.5 \<le> 300 + intensity_of 128 * 600" "300 + intensity_of 128 * 600 < 681.5"
    using intensity_gray by simp_all
  then have "round (300 + intensity_of 128 * 600) = 681"
    unfolding round_def by (intro floor_unique) simp_all
  then show ?thesis by (simp add: weight_of_def)
qed

lemma alpha_gray: "0.7995 < alpha_of (intensity_of 128) \<and> alpha_of (intensity_of 128) < 0.7997"
  using intensity_gray by (simp add: alpha_of_def)

section \<open>Rounding and stored dimensions\<close>

lemma round_half_even_of_int: "round_half_even (of_int m) = m"
  by (simp add: round_half_even_def)




lemma binade_eq:
  assumes "2 powr of_int e \<le> \<bar>x\<bar>" and "\<bar>x\<bar> < 2 powr (of_int e + 1)" and "- 1022 \<le> e"
  shows "binade x = e"
proof -
  have "0 < 2 powr real_of_int e" by simp
  with assms(1) have "0 < \<bar>x\<bar>" by linarith
  then have "\<lfloor>log 2 \<bar>x\<bar>\<rfloor> = e"
    using assms(1,2) by (simp add: floor_log_eq_powr_iff)
  with assms(3) show ?thesis by (simp add: binade_def)
qed

lemma to_double_binade:
  assumes "2 powr of_int e \<le> \<bar>x\<bar>" and "\<bar>x\<bar> < 2 powr (of_int e + 1)" and "- 1022 \<le> e"
  shows "to_double x = 2 powr (of_int e - 52) * of_int (round_half_even (x / 2 powr (of_int e - 52)))"
proof -
  have "0 < 2 powr real_of_int e" by simp
  with assms(1) have "x \<noteq> 0" by auto
  then show ?thesis by (simp add: to_double_def ulp_def binade_eq [OF assms])
qed

lemma to_double_of_int:
  assumes "\<bar>k\<bar> < 2 ^ 53"
  shows "to_double (of_int k) = of_int k"
proof (cases "k = 0")
  case True
  then show ?thesis by (simp add: to_double_def)
next
  case False
  define x where "x = real_of_int k"
  define e where "e = \<lfloor>log 2 \<bar>x\<bar>\<rfloor>"
  have x1: "1 \<le> \<bar>x\<bar>" using False unfolding x_def by (simp flip: of_int_abs)
  have xu: "\<bar>x\<bar> < 2 ^ 53" using assms unfolding x_def
    by (metis of_int_abs of_int_less_iff of_int_numeral of_int_power)
  have b: "2 powr of_int e \<le> \<bar>x\<bar>" "\<bar>x\<bar> < 2 powr (of_int e + 1)"
    using floor_log_eq_powr_iff [of "\<bar>x\<bar>" 2 e] x1 by (simp_all add: e_def)
  have "0 \<le> log 2 \<bar>x\<bar>" using x1 by simp
  then have e0: "0 \<le> e" unfolding e_def by simp
  have "(2::real) powr of_int e < 2 powr 53" using b(1) xu by simp
  then have "real_of_int e < 53" by (simp only: powr_less_cancel_iff one_less_numeral_iff semiring_norm)
  then have e52: "e \<le> 52" by linarith
  define n where "n = nat (52 - e)"
  have en: "real_of_int e - 52 = - real n" using e52 by (simp add: n_def)
  have u: "(2::real) powr (of_int e - 52) = 1 / 2 ^ n"
    unfolding en by (simp add: powr_minus powr_realpow inverse_eq_divide)
  have q: "x / (1 / 2 ^ n) = of_int (k * 2 ^ n)" by (simp add: x_def)
  have "to_double x = 1 / 2 ^ n * of_int (round_half_even (x / (1 / 2 ^ n)))"
    using to_double_binade [OF b] e0 unfolding u by simp
  also have "\<dots> = 1 / 2 ^ n * of_int (k * 2 ^ n)"
    unfolding q round_half_even_of_int ..
  also have "\<dots> = x" by (simp add: x_def)
  finally show ?thesis unfolding x_def .
qed


lemma to_double_1: "to_double 1 = 1"
  using to_double_of_int [of 1] by simp


section \<open>The render\<close>

lemma detailFactor_pos: "0 < detailFactor_of d"
  by (simp add: detailFactor_of_def max_def)

lemma traversal_steps_pos:
  assumes "0 < fontSize (settings env) * scale * spacing (settings env)"
  shows "0 < t_stepX (traversal_of env img scale d)"
    and "0 < t_stepY (traversal_of env img scale d)"
  using assms detailFactor_pos [of d] by (simp_all add: traversal_of_def Let_def)

lemma mosaic_cells_grid:
  assumes "0 < fontSize (settings env) * scale * spacing (settings env)"
  shows "mosaic_cells env img scale d = Some (grid_cells (traversal_of env img scale d))"
  unfolding mosaic_cells_def
  by (rule col_loop_grid [OF traversal_steps_pos [OF assms]])



lemma renderToCanvas_noop:
  assumes "canvas = None \<or> imageRef env = None \<or> imageSize_width env = 0 \<or> imageSize_height env = 0"
  shows "renderToCanvas env canvas scale d = Some canvas"
  using assms by (auto simp: renderToCanvas_def split: option.splits)

lemma traversal_of_monochrome:
  "traversal_of (with_monochrome env m) img scale d =
     (traversal_of env img scale d)\<lparr>t_settings := (settings env)\<lparr>monochrome := m\<rparr>\<rparr>"
  by (simp add: traversal_of_def with_monochrome_def Let_def baseWidth_of_def baseHeight_of_def aspect_of_def)

lemma cell_at_monochrome:
  "cell_at (t\<lparr>t_settings := (t_settings t)\<lparr>monochrome := m\<rparr>\<rparr>) x y ci =
     (cell_at t x y ci)\<lparr>cell_fillStyle :=
        (if m then Rgba 26 26 26 (cell_alpha (cell_at t x y ci))
         else Rgba (round (cell_r (cell_at t x y ci))) (round (cell_g (cell_at t x y ci)))
                (round (cell_b (cell_at t x y ci))) (cell_alpha (cell_at t x y ci)))\<rparr>"
  by (simp add: cell_at_def Let_def fillStyle_of_def contrasted_of_def)

lemma grid_cells_monochrome:
  "grid_cells (t\<lparr>t_settings := (t_settings t)\<lparr>monochrome := m\<rparr>\<rparr>) = map (recolour m) (grid_cells t)"
  by (simp add: grid_cells_def grid_row_def [abs_def] cols_of_def rows_of_def map_concat comp_def
      cell_at_monochrome recolour_def)

section \<open>The traversal with a step that is not positive\<close>

text \<open>A loop whose bound is not reached and whose step does not advance never returns:
  the model's \<open>None\<close> is this case, and positive steps are what the results below
  assume.\<close>

lemma row_loop_stuck:
  assumes "row_loop t y x ci acc = Some r"
  shows "\<not> (t_stepX t \<le> 0 \<and> x < t_baseWidth t)"
proof (rule row_loop.raw_induct
    [where xa = "((((t, y), x), ci), acc)" and ya = r
       and P = "\<lambda>t y x ci acc r. \<not> (t_stepX t \<le> 0 \<and> x < t_baseWidth t)", unfolded prod.case])
  show "row_loop t y x ci acc = Some r" by (rule assms)
next
  fix rl :: "traversal \<Rightarrow> real \<Rightarrow> real \<Rightarrow> nat \<Rightarrow> mosaic_cell list \<Rightarrow> (nat \<times> mosaic_cell list) option"
    and t y x ci acc r
  assume ih: "\<And>t y x ci acc r. rl t y x ci acc = Some r \<Longrightarrow> \<not> (t_stepX t \<le> 0 \<and> x < t_baseWidth t)"
    and st: "(if x < t_baseWidth t then rl t y (x + t_stepX t) (ci + 1) (acc @ [cell_at t x y ci])
             else Some (ci, acc)) = Some r"
  show "\<not> (t_stepX t \<le> 0 \<and> x < t_baseWidth t)"
  proof
    assume a: "t_stepX t \<le> 0 \<and> x < t_baseWidth t"
    with st have "rl t y (x + t_stepX t) (ci + 1) (acc @ [cell_at t x y ci]) = Some r" by simp
    from ih [OF this] a show False by simp
  qed
qed

lemma row_loop_diverges:
  assumes "t_stepX t \<le> 0" and "x < t_baseWidth t"
  shows "row_loop t y x ci acc = None"
  using row_loop_stuck [of t y x ci acc] assms by (cases "row_loop t y x ci acc") auto

lemma col_loop_stuck:
  assumes "col_loop t y ci acc = Some r"
  shows "\<not> (y < t_baseHeight t \<and> (t_stepY t \<le> 0 \<or> (t_stepX t \<le> 0 \<and> 0 < t_baseWidth t)))"
proof (rule col_loop.raw_induct
    [where t = t and y = y and charIndex = ci and acc = acc and ya = r
       and P = "\<lambda>t y ci acc r. \<not> (y < t_baseHeight t \<and> (t_stepY t \<le> 0 \<or> (t_stepX t \<le> 0 \<and> 0 < t_baseWidth t)))"])
  show "col_loop t y ci acc = Some r" by (rule assms)
next
  fix cl :: "traversal \<Rightarrow> real \<Rightarrow> nat \<Rightarrow> mosaic_cell list \<Rightarrow> mosaic_cell list option"
    and t y ci acc r
  assume ih: "\<And>t y ci acc r. cl t y ci acc = Some r \<Longrightarrow>
        \<not> (y < t_baseHeight t \<and> (t_stepY t \<le> 0 \<or> (t_stepX t \<le> 0 \<and> 0 < t_baseWidth t)))"
    and st: "(if y < t_baseHeight t
      then (case row_loop t y 0 ci acc of
              None \<Rightarrow> None
            | Some (charIndex', acc') \<Rightarrow> cl t (y + t_stepY t) charIndex' acc')
      else Some acc) = Some r"
  show "\<not> (y < t_baseHeight t \<and> (t_stepY t \<le> 0 \<or> (t_stepX t \<le> 0 \<and> 0 < t_baseWidth t)))"
  proof
    assume a: "y < t_baseHeight t \<and> (t_stepY t \<le> 0 \<or> (t_stepX t \<le> 0 \<and> 0 < t_baseWidth t))"
    with st obtain ci' acc' where row: "row_loop t y 0 ci acc = Some (ci', acc')"
      and rest: "cl t (y + t_stepY t) ci' acc' = Some r"
      by (auto split: option.splits)
    from row_loop_stuck [OF row] have nx: "\<not> (t_stepX t \<le> 0 \<and> 0 < t_baseWidth t)" .
    with a have sy: "t_stepY t \<le> 0" by blast
    from ih [OF rest] sy a show False by simp
  qed
qed

lemma mosaic_cells_diverges:
  assumes "0 < baseHeight_of env scale" and "0 < baseWidth_of env scale"
    and "fontSize (settings env) * scale * spacing (settings env) \<le> 0"
  shows "mosaic_cells env img scale d = None"
proof -
  let ?t = "traversal_of env img scale d"
  have dp: "0 < detailFactor_of d" by (rule detailFactor_pos)
  have "t_stepX ?t = (fontSize (settings env) * scale * spacing (settings env)) * detailFactor_of d"
    by (simp add: traversal_of_def Let_def)
  then have sx: "t_stepX ?t \<le> 0"
    using assms(3) dp by (simp add: mult_le_0_iff)
  have "0 < t_baseHeight ?t \<and> 0 < t_baseWidth ?t"
    using assms(1,2) by (simp add: traversal_of_def Let_def)
  with sx col_loop_stuck [of ?t 0 0 "[]"] show ?thesis
    unfolding mosaic_cells_def by (cases "col_loop ?t 0 0 []") auto
qed

section \<open>The gray example\<close>

lemma length_gray_buffer: "length (gray_buffer n) = 4 * n"
  by (induction n) (simp_all add: gray_buffer_def)

lemma gray_buffer_Suc: "gray_buffer (Suc n) = [128, 128, 128, 255] @ gray_buffer n"
  by (simp add: gray_buffer_def)

lemma gray_buffer_nth:
  assumes "m < n" "c \<le> 2"
  shows "gray_buffer n ! (4 * m + c) = 128"
  using assms
proof (induction n arbitrary: m)
  case 0
  then show ?case by simp
next
  case (Suc n)
  show ?case
  proof (cases m)
    case 0
    from Suc.prems(2) have "c = 0 \<or> c = 1 \<or> c = 2" by linarith
    then show ?thesis unfolding gray_buffer_Suc 0 by auto
  next
    case (Suc m')
    then have "m' < n" using Suc.prems(1) by simp
    from Suc.IH [OF this Suc.prems(2)] have ih: "gray_buffer n ! (4 * m' + c) = 128" .
    have "4 * m + c = 4 + (4 * m' + c)" using Suc by simp
    then have "gray_buffer (Suc n) ! (4 * m + c) = gray_buffer n ! (4 * m' + c)"
      unfolding gray_buffer_Suc by (simp add: nth_append)
    with ih show ?thesis by simp
  qed
qed

lemma length_grid_cells: "length (grid_cells t) = rows_of t * cols_of t"
  by (simp add: grid_cells_def grid_row_def [abs_def] length_concat comp_def sum_list_triv)

lemma quad_index_less: "4 * m + c < 4 * n \<Longrightarrow> m < (n::nat)"
  by arith

lemma sampled_gray:
  assumes w: "1 \<le> w" and h: "1 \<le> h" and c: "c \<le> 2"
  shows "sampled (gray_buffer (w * h)) (real w) (real h) x y (real c) = 128"
proof -
  let ?d = "gray_buffer (w * h)"
  let ?sx = "min (w - 1) (nat \<lfloor>x\<rfloor>)" and ?sy = "min (h - 1) (nat \<lfloor>y\<rfloor>)"
  have len: "length ?d = 4 * w * h" by (simp add: length_gray_buffer)
  note taps = taps_in_range [where x = x and y = y, OF w h len c refl refl]
  have p: "?sy * w + ?sx < w * h"
    using taps(3) unfolding length_gray_buffer by (rule quad_index_less)
  have q: "min (h - 1) (?sy + 1) * w + min (w - 1) (?sx + 1) < w * h"
    using taps(4) unfolding length_gray_buffer by (rule quad_index_less)
  show ?thesis
    unfolding sampled_def Let_def taps(1) taps(2) gray_buffer_nth [OF p c] gray_buffer_nth [OF q c]
    by (simp add: nullish_zero_def)
qed

lemma gray_cell:
  assumes n: "1 \<le> n"
    and d: "t_imageData t = gray_buffer (n * n)"
    and w: "t_baseWidth t = real n" and h: "t_baseHeight t = real n"
    and c: "contrast (t_settings t) = 1"
  shows "cell_r (cell_at t x y ci) = 128 \<and> cell_g (cell_at t x y ci) = 128
       \<and> cell_b (cell_at t x y ci) = 128
       \<and> cell_contrasted (cell_at t x y ci) = 128
       \<and> cell_intensity (cell_at t x y ci) = intensity_of 128
       \<and> cell_weight (cell_at t x y ci) = 681
       \<and> cell_alpha (cell_at t x y ci) = alpha_of (intensity_of 128)"
proof -
  have r: "sampled (gray_buffer (n * n)) (real n) (real n) x y 0 = 128"
    using sampled_gray [OF n n, of 0 x y] by simp
  have g: "sampled (gray_buffer (n * n)) (real n) (real n) x y 1 = 128"
    using sampled_gray [OF n n, of 1 x y] by simp
  have b: "sampled (gray_buffer (n * n)) (real n) (real n) x y 2 = 128"
    using sampled_gray [OF n n, of 2 x y] by simp
  have l: "luminance_of 128 128 128 = 128" by (simp add: luminance_of_def)
  have k: "contrasted_of (t_settings t) 128 = 128" by (simp add: contrasted_of_def clamp_def c)
  show ?thesis
    by (simp add: cell_at_def Let_def d w h r g b l k weight_gray)
qed

lemma square_surface:
  assumes iw: "imageSize_width env = 100" and ih: "imageSize_height env = 100"
    and n: "of_int (previewWidth env) * scale = real n"
    and pw: "\<bar>previewWidth env\<bar> < 2 ^ 53" and nb: "n < 2 ^ 53"
  shows "baseWidth_of env scale = real n" and "baseHeight_of env scale = real n"
proof -
  have "\<bar>int n\<bar> < 2 ^ 53" using nb by simp
  from to_double_of_int [OF this] have tn: "to_double (real n) = real n" by simp
  have a: "aspect_of env = 1" by (simp add: aspect_of_def js_div_def iw ih to_double_1)
  have q: "js_div (of_int (previewWidth env)) 1 = of_int (previewWidth env)"
    using to_double_of_int [OF pw] by (simp add: js_div_def)
  show "baseWidth_of env scale = real n" by (simp add: baseWidth_of_def js_mul_def n tn)
  show "baseHeight_of env scale = real n" by (simp add: baseHeight_of_def a q js_mul_def n tn)
qed

lemma gray_render_cells:
  assumes c: "contrast (settings env) = 1"
    and pos: "0 < fontSize (settings env) * scale * spacing (settings env)"
    and bw: "baseWidth_of env scale = real n" and bh: "baseHeight_of env scale = real n"
    and d: "drawn img (real n) (real n) = gray_buffer (n * n)"
  shows "mosaic_cells env img scale dB = Some (grid_cells (traversal_of env img scale dB))
     \<and> list_all (\<lambda>c. cell_r c = 128 \<and> cell_g c = 128 \<and> cell_b c = 128
           \<and> cell_contrasted c = 128 \<and> cell_intensity c = intensity_of 128
           \<and> cell_weight c = 681 \<and> cell_alpha c = alpha_of (intensity_of 128))
         (grid_cells (traversal_of env img scale dB))"
proof -
  let ?t = "traversal_of env img scale dB"
  have tw: "t_baseWidth ?t = real n" and th: "t_baseHeight ?t = real n"
    and td: "t_imageData ?t = gray_buffer (n * n)" and tc: "contrast (t_settings ?t) = 1"
    by (simp_all add: traversal_of_def Let_def bw bh d c)
  note steps = traversal_steps_pos [OF pos, of img dB]
  have "\<forall>c \<in> set (grid_cells ?t). cell_r c = 128 \<and> cell_g c = 128 \<and> cell_b c = 128
           \<and> cell_contrasted c = 128 \<and> cell_intensity c = intensity_of 128
           \<and> cell_weight c = 681 \<and> cell_alpha c = alpha_of (intensity_of 128)"
  proof
    fix c assume "c \<in> set (grid_cells ?t)"
    from grid_cells_mem [OF steps this] obtain x y ci
      where cx: "c = cell_at ?t x y ci" and x: "0 \<le> x" "x < t_baseWidth ?t" by blast
    from x have "1 \<le> n" unfolding tw by simp
    from gray_cell [OF this td tw th tc, of x y ci] show "cell_r c = 128 \<and> cell_g c = 128 \<and> cell_b c = 128
           \<and> cell_contrasted c = 128 \<and> cell_intensity c = intensity_of 128
           \<and> cell_weight c = 681 \<and> cell_alpha c = alpha_of (intensity_of 128)"
      unfolding cx .
  qed
  then show ?thesis by (simp add: mosaic_cells_grid [OF pos] list_all_iff)
qed

lemma gray_env_facts:
  "imageRef gray_env = Some gray_image" "imageSize_width gray_env = 100"
  "imageSize_height gray_env = 100" "previewWidth gray_env = 720"
  "settings gray_env = default_settings\<lparr>underlay := 0\<rparr>" "temp_context2d gray_env"
  by (simp_all add: gray_env_def onload_def initial_env_def gray_image_def)

lemma gray_env_dims:
  "baseWidth_of gray_env 1 = 720" "baseHeight_of gray_env 1 = 720"
  using square_surface [of gray_env 1 720] by (simp_all add: gray_env_facts)

lemma gray_env_grid:
  "rows_of (traversal_of gray_env gray_image 1 0.7) = 35"
  "cols_of (traversal_of gray_env gray_image 1 0.7) = 48"
  by (simp_all add: rows_of_def cols_of_def traversal_of_def Let_def gray_env_facts default_settings_def
      gray_env_dims detailFactor_of_def)

section \<open>Outside the whole-pixel surface\<close>

text \<open>\<open>baseHeight\<close> is a floor times the scale, so it is whole only when the scale
  makes it so. At \<open>previewWidth = 281\<close> and scale 1.5 a square image gives a width of
  421 and a height of 421.5; against a buffer of 421 rows the last grid row (here
  \<open>y = 421.3755\<close>, the 14th row for font size 21, spacing 1.05 and detail 0.7) reads
  past the end, and the fallback value 0 is used.\<close>

lemma fractional_height_read:
  assumes "length d = 4 * 421 * 421"
  shows "sampleY_of 421.5 421.3755 = 420.5"
    and "array_get d (pixelIndex_of 421 (sampleX_of 421 231.525) (sampleY_of 421.5 421.3755)) = None"
    and "array_get d (altIndex_of 421 421.5 (sampleX_of 421 231.525) (sampleY_of 421.5 421.3755)) = None"
    and "sampled d 421 421.5 231.525 421.3755 0 = 0"
  using assms
  by (simp_all add: sampled_def Let_def sampleY_of_def sampleX_of_def pixelIndex_of_def
      altIndex_of_def array_get_def nullish_zero_def)

text \<open>At a negative coordinate, which the traversal never produces, the secondary
  point is the clamped primary point plus one, not the clamped \<open>x + 1\<close>.\<close>

lemma negative_coordinate_secondary:
  "sampleX_of 2 (- 5) = 0"
  "altIndex_of 2 1 (sampleX_of 2 (- 5)) (sampleY_of 1 0) = 4"
  "floor_clamp (- 5 + 1) 2 = 0"
  by (simp_all add: sampleX_of_def sampleY_of_def altIndex_of_def floor_clamp_def)

section \<open>The claims\<close>

text \<open>Claim C7: for every text and every index \<open>i\<close>, the glyph drawn for index \<open>i\<close>
  is the character at position \<open>i mod N\<close> of the glyph stream, \<open>N\<close> its length, with a
  newline replaced by a space; so the glyph for \<open>i + N\<close> is the glyph for \<open>i\<close>.\<close>
theorem glyph_sequencer_cyclic:
  "safeChar_of (nextChar_at (textCharacters l) i)
     = Some (if textCharacters l ! (i mod length (textCharacters l)) = 0x0A then 0x20
             else textCharacters l ! (i mod length (textCharacters l)))
   \<and> safeChar_of (nextChar_at (textCharacters l) (i + length (textCharacters l)))
     = safeChar_of (nextChar_at (textCharacters l) i)"
  by (simp add: nextChar_at_textCharacters safeChar_of_def)

text \<open>Claim C8: when the text is empty after collapsing white space and trimming, the
  glyph stream is the single placeholder U+2022 and every index yields it.\<close>
theorem empty_text_placeholder:
  assumes "trim (collapse_ws l) = []"
  shows "textCharacters l = [bullet]
       \<and> safeChar_of (nextChar_at (textCharacters l) i) = Some bullet"
proof -
  have tc: "textCharacters l = [bullet]" using assms by (simp add: textCharacters_def)
  show ?thesis unfolding tc by (simp add: nextChar_at_def safeChar_of_def bullet_def)
qed

theorem empty_text_placeholder_witness:
  "trim (collapse_ws [0x20, 0x0A, 0x09]) = []
   \<and> textCharacters [0x20, 0x0A, 0x09] = [bullet]
   \<and> safeChar_of (nextChar_at (textCharacters [0x20, 0x0A, 0x09]) 7) = Some bullet"
proof -
  have h: "trim (collapse_ws [0x20, 0x0A, 0x09]) = []"
    by (simp add: trim_empty_iff is_white_def)
  show ?thesis using h empty_text_placeholder [OF h, of 7] by blast
qed

text \<open>Claim C9: with a missing canvas, no loaded image, or an image size whose width or
  height is zero, \<open>renderToCanvas\<close> returns and leaves the canvas as it was: its
  dimensions are not assigned and no call is made on its context.\<close>
theorem render_noop_without_precondition:
  assumes "canvas = None \<or> imageRef env = None
         \<or> imageSize_width env = 0 \<or> imageSize_height env = 0"
  shows "renderToCanvas env canvas scale detailBoost = Some canvas"
  using assms by (auto simp: renderToCanvas_def split: option.splits)

theorem render_noop_without_precondition_witness:
  "imageRef initial_env = None
   \<and> renderToCanvas initial_env (Some blank_canvas) 1 0.7 = Some (Some blank_canvas)
   \<and> renderToCanvas gray_env None 4 1 = Some None
   \<and> imageSize_height (gray_env\<lparr>imageSize_height := 0\<rparr>) = 0
   \<and> renderToCanvas (gray_env\<lparr>imageSize_height := 0\<rparr>) (Some blank_canvas) 4 1
       = Some (Some blank_canvas)"
proof -
  have a: "imageRef initial_env = None" by (simp add: initial_env_def)
  have b: "imageSize_height (gray_env\<lparr>imageSize_height := 0\<rparr>) = 0" by simp
  show ?thesis
    using a b
      render_noop_without_precondition [of "Some blank_canvas" initial_env 1 "0.7"]
      render_noop_without_precondition [of None gray_env 4 1]
      render_noop_without_precondition [of "Some blank_canvas" "gray_env\<lparr>imageSize_height := 0\<rparr>" 4 1]
    by simp
qed

















text \<open>Claim C2: for every cell, whatever the sampled colour, the contrast, the font
  size and the scale, the styling is computed by the stated formulas: luminance with
  the weights 0.2126, 0.7152, 0.0722; contrasted luminance clamped to \<open>[0, 255]\<close>;
  intensity \<open>(1 - contrasted / 255)\<close> to the power 0.65; weight
  \<open>round(300 + intensity * 600)\<close>; glyph size
  \<open>fontSize * scale * (0.85 + intensity * 0.8)\<close>; alpha \<open>0.45 + intensity * 0.55\<close>.
  The sampled channels lie in \<open>[0, 255]\<close>, the weight in \<open>[300, 900]\<close> and alpha in
  \<open>[0.45, 1]\<close>.\<close>
theorem cell_styling:
  fixes env img scale detailBoost x y charIndex
  defines "c \<equiv> cell_at (traversal_of env img scale detailBoost) x y charIndex"
  shows "cell_luminance c = 0.2126 * cell_r c + 0.7152 * cell_g c + 0.0722 * cell_b c
   \<and> cell_contrasted c
       = min (max ((cell_luminance c - 128) * contrast (settings env) + 128) 0) 255
   \<and> cell_intensity c = (1 - cell_contrasted c / 255) powr 0.65
   \<and> cell_weight c = round (300 + cell_intensity c * 600)
   \<and> cell_size c = fontSize (settings env) * scale * (0.85 + cell_intensity c * 0.8)
   \<and> cell_alpha c = 0.45 + cell_intensity c * 0.55
   \<and> 0 \<le> cell_r c \<and> cell_r c \<le> 255
   \<and> 0 \<le> cell_g c \<and> cell_g c \<le> 255
   \<and> 0 \<le> cell_b c \<and> cell_b c \<le> 255
   \<and> 300 \<le> cell_weight c \<and> cell_weight c \<le> 900
   \<and> 0.45 \<le> cell_alpha c \<and> cell_alpha c \<le> 1"
proof -
  let ?t = "traversal_of env img scale detailBoost"
  have ts: "t_settings ?t = settings env" "t_scaledFont ?t = fontSize (settings env) * scale"
    by (simp_all add: traversal_of_def Let_def)
  have formulas:
    "cell_luminance c = luminance_of (cell_r c) (cell_g c) (cell_b c)"
    "cell_contrasted c = contrasted_of (settings env) (cell_luminance c)"
    "cell_intensity c = intensity_of (cell_contrasted c)"
    "cell_weight c = weight_of (cell_intensity c)"
    "cell_size c = size_of (fontSize (settings env) * scale) (cell_intensity c)"
    "cell_alpha c = alpha_of (cell_intensity c)"
    by (simp_all add: c_def cell_at_def Let_def ts)
  have rgb: "0 \<le> cell_r c \<and> cell_r c \<le> 255" "0 \<le> cell_g c \<and> cell_g c \<le> 255"
    "0 \<le> cell_b c \<and> cell_b c \<le> 255"
    by (simp_all add: c_def cell_at_def Let_def sampled_bounds)
  have cb: "0 \<le> cell_contrasted c" "cell_contrasted c \<le> 255"
    unfolding formulas(2) using contrasted_bounds by blast+
  have ib: "0 \<le> cell_intensity c" "cell_intensity c \<le> 1"
    unfolding formulas(3) using intensity_bounds [OF cb] by blast+
  have wb: "300 \<le> cell_weight c \<and> cell_weight c \<le> 900"
    unfolding formulas(4) by (rule weight_bounds [OF ib])
  have ab: "0.45 \<le> cell_alpha c \<and> cell_alpha c \<le> 1"
    unfolding formulas(6) by (rule alpha_bounds [OF ib])
  have f1: "cell_luminance c = 0.2126 * cell_r c + 0.7152 * cell_g c + 0.0722 * cell_b c"
    unfolding formulas(1) by (simp add: luminance_of_def)
  have f2: "cell_contrasted c
       = min (max ((cell_luminance c - 128) * contrast (settings env) + 128) 0) 255"
    unfolding formulas(2) by (simp add: contrasted_of_def clamp_def)
  have f3: "cell_intensity c = (1 - cell_contrasted c / 255) powr 0.65"
    unfolding formulas(3) by (simp add: intensity_of_def)
  have f4: "cell_weight c = round (300 + cell_intensity c * 600)"
    unfolding formulas(4) by (simp add: weight_of_def)
  have f5: "cell_size c = fontSize (settings env) * scale * (0.85 + cell_intensity c * 0.8)"
    unfolding formulas(5) by (simp add: size_of_def)
  have f6: "cell_alpha c = 0.45 + cell_intensity c * 0.55"
    unfolding formulas(6) by (simp add: alpha_of_def)
  show ?thesis using f1 f2 f3 f4 f5 f6 rgb wb ab by blast
qed










lemma mosaic_cells_monochrome:
  assumes pos: "0 < fontSize (settings env) * scale * spacing (settings env)"
  shows "mosaic_cells (with_monochrome env m) img scale d
     = Some (map (recolour m) (grid_cells (traversal_of env img scale d)))"
proof -
  have p: "0 < fontSize (settings (with_monochrome env m)) * scale
             * spacing (settings (with_monochrome env m))"
    using pos by (simp add: with_monochrome_def)
  have ts: "t_settings (traversal_of env img scale d) = settings env"
    by (simp add: traversal_of_def Let_def)
  show ?thesis
    unfolding mosaic_cells_grid [OF p] traversal_of_monochrome
    using grid_cells_monochrome [where t = "traversal_of env img scale d" and m = m]
    by (simp add: ts)
qed

text \<open>Claim C6: two renders that differ only in the monochrome setting draw the same
  number of cells, and cell by cell the alpha, glyph size and weight (and position and
  character) agree; the fill colour is (26, 26, 26) with monochrome set and the rounded
  sampled colour otherwise.\<close>
theorem monochrome_toggle:
  assumes "0 < fontSize (settings env) * scale * spacing (settings env)"
  shows "\<exists>mono colour.
      mosaic_cells (with_monochrome env True) img scale detailBoost = Some mono
    \<and> mosaic_cells (with_monochrome env False) img scale detailBoost = Some colour
    \<and> length mono = length colour
    \<and> list_all2 (\<lambda>m c.
          cell_alpha m = cell_alpha c \<and> cell_size m = cell_size c
        \<and> cell_weight m = cell_weight c
        \<and> cell_x m = cell_x c \<and> cell_y m = cell_y c \<and> cell_safeChar m = cell_safeChar c
        \<and> cell_fillStyle m = Rgba 26 26 26 (cell_alpha m)
        \<and> cell_fillStyle c
            = Rgba (round (cell_r c)) (round (cell_g c)) (round (cell_b c)) (cell_alpha c))
        mono colour"
proof -
  let ?g = "grid_cells (traversal_of env img scale detailBoost)"
  have "list_all2 (\<lambda>m c.
          cell_alpha m = cell_alpha c \<and> cell_size m = cell_size c
        \<and> cell_weight m = cell_weight c
        \<and> cell_x m = cell_x c \<and> cell_y m = cell_y c \<and> cell_safeChar m = cell_safeChar c
        \<and> cell_fillStyle m = Rgba 26 26 26 (cell_alpha m)
        \<and> cell_fillStyle c
            = Rgba (round (cell_r c)) (round (cell_g c)) (round (cell_b c)) (cell_alpha c))
        (map (recolour True) ?g) (map (recolour False) ?g)"
    by (simp add: list_all2_map1 list_all2_map2 list_all2_same recolour_def)
  then show ?thesis
    unfolding mosaic_cells_monochrome [OF assms] by (intro exI conjI refl) simp_all
qed

theorem monochrome_toggle_witness:
  "0 < fontSize (settings gray_env) * 1 * spacing (settings gray_env)
   \<and> (\<exists>mono colour.
      mosaic_cells (with_monochrome gray_env True) gray_image 1 0.7 = Some mono
    \<and> mosaic_cells (with_monochrome gray_env False) gray_image 1 0.7 = Some colour
    \<and> length mono = length colour
    \<and> list_all2 (\<lambda>m c.
          cell_alpha m = cell_alpha c \<and> cell_size m = cell_size c
        \<and> cell_weight m = cell_weight c
        \<and> cell_x m = cell_x c \<and> cell_y m = cell_y c \<and> cell_safeChar m = cell_safeChar c
        \<and> cell_fillStyle m = Rgba 26 26 26 (cell_alpha m)
        \<and> cell_fillStyle c
            = Rgba (round (cell_r c)) (round (cell_g c)) (round (cell_b c)) (cell_alpha c))
        mono colour)"
proof -
  have h: "0 < fontSize (settings gray_env) * 1 * spacing (settings gray_env)"
    by (simp add: gray_env_facts default_settings_def)
  show ?thesis using h monochrome_toggle [OF h, of gray_image "0.7"] by blast
qed





lemma gray_values_near:
  "\<bar>intensity_of 128 - 0.636\<bar> \<le> 0.01" "\<bar>alpha_of (intensity_of 128) - 0.800\<bar> \<le> 0.01"
  "\<not> \<bar>intensity_of 128 - 0.706\<bar> \<le> 0.01" "\<not> \<bar>alpha_of (intensity_of 128) - 0.838\<bar> \<le> 0.01"
  using intensity_gray alpha_gray by simp_all

text \<open>Claim C1, amended: for a 100 x 100 image that is uniformly gray (128, 128, 128) on
  an \<open>n\<close> by \<open>n\<close> pixel surface (\<open>baseWidth\<close> and \<open>baseHeight\<close> both \<open>n\<close>) and with
  contrast 1, every rendered cell has
  contrasted luminance 128, intensity \<open>(1 - 128 / 255)\<close> to the power 0.65, which is
  0.636 within 0.01, weight 681, and alpha 0.800 within 0.01.\<close>
theorem gray_example:
  assumes "imageSize_width env = 100" and "imageSize_height env = 100"
    and "contrast (settings env) = 1"
    and "0 < fontSize (settings env) * scale * spacing (settings env)"
    and "baseWidth_of env scale = real n" and "baseHeight_of env scale = real n"
    and "drawn img (real n) (real n) = gray_buffer (n * n)"
  shows "\<exists>cells.
      mosaic_cells env img scale detailBoost = Some cells
    \<and> list_all (\<lambda>c. cell_contrasted c = 128
           \<and> cell_intensity c = (1 - 128 / 255) powr 0.65
           \<and> \<bar>cell_intensity c - 0.636\<bar> \<le> 0.01
           \<and> cell_weight c = 681
           \<and> \<bar>cell_alpha c - 0.800\<bar> \<le> 0.01) cells"
proof -
  from gray_render_cells [OF assms(3-7), of detailBoost]
  have m: "mosaic_cells env img scale detailBoost
        = Some (grid_cells (traversal_of env img scale detailBoost))"
    and a: "list_all (\<lambda>c. cell_r c = 128 \<and> cell_g c = 128 \<and> cell_b c = 128
           \<and> cell_contrasted c = 128 \<and> cell_intensity c = intensity_of 128
           \<and> cell_weight c = 681 \<and> cell_alpha c = alpha_of (intensity_of 128))
         (grid_cells (traversal_of env img scale detailBoost))"
    by blast+
  have i: "intensity_of 128 = (1 - 128 / 255) powr 0.65" by (simp add: intensity_of_def)
  have "list_all (\<lambda>c. cell_contrasted c = 128
           \<and> cell_intensity c = (1 - 128 / 255) powr 0.65
           \<and> \<bar>cell_intensity c - 0.636\<bar> \<le> 0.01
           \<and> cell_weight c = 681
           \<and> \<bar>cell_alpha c - 0.800\<bar> \<le> 0.01)
         (grid_cells (traversal_of env img scale detailBoost))"
    using a gray_values_near(1,2) i unfolding list_all_iff by metis
  with m show ?thesis by blast
qed

lemma gray_env_hyps:
  "imageSize_width gray_env = 100" "imageSize_height gray_env = 100"
  "contrast (settings gray_env) = 1"
  "0 < fontSize (settings gray_env) * 1 * spacing (settings gray_env)"
  "baseWidth_of gray_env 1 = real 720" "baseHeight_of gray_env 1 = real 720"
  "drawn gray_image (real 720) (real 720) = gray_buffer (720 * 720)"
  by (simp_all add: gray_env_facts default_settings_def gray_image_def gray_env_dims)

theorem gray_example_witness:
  "imageSize_width gray_env = 100 \<and> imageSize_height gray_env = 100
   \<and> contrast (settings gray_env) = 1
   \<and> 0 < fontSize (settings gray_env) * 1 * spacing (settings gray_env)
   \<and> baseWidth_of gray_env 1 = real 720 \<and> baseHeight_of gray_env 1 = real 720
   \<and> drawn gray_image (real 720) (real 720) = gray_buffer (720 * 720)
   \<and> (\<exists>cells.
      mosaic_cells gray_env gray_image 1 0.7 = Some cells
    \<and> list_all (\<lambda>c. cell_contrasted c = 128
           \<and> cell_intensity c = (1 - 128 / 255) powr 0.65
           \<and> \<bar>cell_intensity c - 0.636\<bar> \<le> 0.01
           \<and> cell_weight c = 681
           \<and> \<bar>cell_alpha c - 0.800\<bar> \<le> 0.01) cells)"
  using gray_env_hyps gray_example [OF gray_env_hyps, of "0.7"] by blast

text \<open>The values 0.706, 724 and 0.838 are not those of the cells: the preview of the
  gray image at scale 1 has 1680 cells, none with these values.\<close>

theorem gray_example_spec_values_fail:
  "\<exists>cells.
      mosaic_cells gray_env gray_image 1 0.7 = Some cells
    \<and> length cells = 1680
    \<and> list_all (\<lambda>c. cell_contrasted c = 128
           \<and> \<not> \<bar>cell_intensity c - 0.706\<bar> \<le> 0.01
           \<and> cell_weight c \<noteq> 724
           \<and> \<not> \<bar>cell_alpha c - 0.838\<bar> \<le> 0.01) cells"
proof -
  from gray_render_cells [OF gray_env_hyps(3-7), of "0.7"]
  have m: "mosaic_cells gray_env gray_image 1 0.7
        = Some (grid_cells (traversal_of gray_env gray_image 1 0.7))"
    and a: "list_all (\<lambda>c. cell_r c = 128 \<and> cell_g c = 128 \<and> cell_b c = 128
           \<and> cell_contrasted c = 128 \<and> cell_intensity c = intensity_of 128
           \<and> cell_weight c = 681 \<and> cell_alpha c = alpha_of (intensity_of 128))
         (grid_cells (traversal_of gray_env gray_image 1 0.7))"
    by blast+
  have l: "length (grid_cells (traversal_of gray_env gray_image 1 0.7)) = 1680"
    by (simp add: length_grid_cells gray_env_grid)
  have "list_all (\<lambda>c. cell_contrasted c = 128
           \<and> \<not> \<bar>cell_intensity c - 0.706\<bar> \<le> 0.01
           \<and> cell_weight c \<noteq> 724
           \<and> \<not> \<bar>cell_alpha c - 0.838\<bar> \<le> 0.01)
         (grid_cells (traversal_of gray_env gray_image 1 0.7))"
    using a gray_values_near(3,4) unfolding list_all_iff by auto
  with m l show ?thesis by blast
qed

end
